theory Spec2Isabelle
  imports Complex_Main
begin

section \<open>The design pane of the API-design tool: wrapper-design.js\<close>

text \<open>
  A shallow embedding of the class \<open>WrapperDesign\<close> of
  \<^verbatim>\<open>packages/insomnia-app/app/ui/components/wrapper-design.js\<close>: the component
  instance, the timers of the event loop it schedules on, and the calls it makes to its
  collaborators (the parent's callbacks, the Spectral rule engine, the YAML parser and the
  CodeEditor widget), which are recorded in logs.
\<close>

subsection \<open>Data\<close>

text \<open>
  The type \<open>ApiSpec\<close> is imported from \<^verbatim>\<open>models/api-spec\<close>; the component reads its
  fields \<open>_id\<close> and \<open>contents\<close> only. The record is extensible: every other field of an
  ApiSpec lives in the extension \<open>'m\<close>, reached with \<open>api_spec.more\<close>.
\<close>

record api_spec =
  spec_id :: string
  contents :: string

record position =
  line :: nat
  character :: nat

record srange =
  start :: position
  finish :: position

text \<open>One result of \<open>spectral.run\<close>.\<close>

record violation =
  severity :: int
  code :: string
  message :: string
  vrange :: srange

text \<open>One element of \<open>state.lintMessages\<close>, built in \<open>_reLint\<close>.\<close>

record notice =
  ntype :: string
  nmessage :: string
  nline :: nat
  n_range :: srange

record state =
  previewActive :: bool
  lintMessages :: "notice list"

datatype error =
    TypeError string
  | YAMLError string
  | SpectralError string

text \<open>
  A value returned by \<open>YAML.parse\<close>. Numbers are reals or \<open>NaN\<close> (the infinities, which
  are truthy like every other number except zero, are left out).
\<close>

datatype jsvalue =
    JNull
  | JBool bool
  | JNum real
  | JNaN
  | JStr string
  | JArr "jsvalue list"
  | JObj "(string \<times> jsvalue) list"

text \<open>What \<open>render\<close> hands to the widgets below it, as far as it depends on the instance.\<close>

record view =
  swaggerSpec :: jsvalue
  preview_hidden :: bool
  preview_label :: string
  defaultValue :: string
  uniquenessKey :: string
  noticeTable :: "notice list option"

text \<open>
  The arrow function handed to \<open>setTimeout\<close> in \<open>_handleOnChange\<close>, as the values it
  closes over: \<open>activeApiSpec\<close> and \<open>v\<close> (and \<open>handleUpdateApiSpec\<close>, the parent's
  callback, which is the log \<open>updates\<close> below).
\<close>

record 'm closure =
  c_activeApiSpec :: "'m api_spec_scheme"
  c_v :: string

record 'm timer =
  tid :: nat
  due :: nat
  callback :: "'m closure"

text \<open>
  The instance together with its environment. \<open>activeApiSpec\<close> is
  \<open>this.props.wrapperProps.activeApiSpec\<close>; \<open>editor\<close> is the ref to the CodeEditor widget;
  \<open>debounceTimeout\<close> is \<open>None\<close> while the field is still undefined. \<open>now\<close>, \<open>next_timer\<close>
  and \<open>timers\<close> are the clock and the pending timeouts of the event loop. The remaining
  fields log the calls that leave the component, in call order.
\<close>

record 'm sys =
  activeApiSpec :: "'m api_spec_scheme"
  state :: state
  editor :: "nat option"
  debounceTimeout :: "nat option"
  mounted :: bool
  now :: nat
  next_timer :: nat
  timers :: "'m timer list"
  updates :: "'m api_spec_scheme list"
  lint_runs :: "string list"
  selections :: "(nat \<times> nat \<times> nat \<times> nat \<times> nat) list"
  activities :: "string list"
  unhandled :: "error list"

type_synonym 'm outcome = "(error + unit) \<times> 'm sys"

subsection \<open>Timers of the event loop\<close>

definition setTimeout :: "'m closure \<Rightarrow> nat \<Rightarrow> 'm sys \<Rightarrow> nat \<times> 'm sys" where
  "setTimeout cb delay w =
     (next_timer w,
      w\<lparr>timers := timers w @ [\<lparr>tid = next_timer w, due = now w + delay, callback = cb\<rparr>],
        next_timer := Suc (next_timer w)\<rparr>)"

definition clearTimeout :: "nat option \<Rightarrow> 'm sys \<Rightarrow> 'm sys" where
  "clearTimeout h w =
     (case h of
        None \<Rightarrow> w
      | Some i \<Rightarrow> w\<lparr>timers := filter (\<lambda>t. tid t \<noteq> i) (timers w)\<rparr>)"

text \<open>The parent's callback \<open>handleUpdateApiSpec\<close>: the call is logged.\<close>

definition handleUpdateApiSpec :: "'m api_spec_scheme \<Rightarrow> 'm sys \<Rightarrow> 'm sys" where
  "handleUpdateApiSpec s w = w\<lparr>updates := updates w @ [s]\<rparr>"

text \<open>
  Running the closure: \<open>await handleUpdateApiSpec({ ...activeApiSpec, contents: v })\<close>.
\<close>

definition run_callback :: "'m closure \<Rightarrow> 'm sys \<Rightarrow> 'm sys" where
  "run_callback cb w = handleUpdateApiSpec ((c_activeApiSpec cb)\<lparr>contents := c_v cb\<rparr>) w"

text \<open>
  \<open>elapse d\<close> lets \<open>d\<close> time units pass: every timeout that is due by then is taken off
  the pending list and run, earliest first (timeouts due at the same time in the order
  they were set).
\<close>

definition elapse :: "nat \<Rightarrow> 'm sys \<Rightarrow> 'm sys" where
  "elapse d w =
     (let t = now w + d;
          ready = sort_key due (filter (\<lambda>x. due x \<le> t) (timers w));
          w1 = w\<lparr>timers := filter (\<lambda>x. \<not> due x \<le> t) (timers w), now := t\<rparr>
      in fold (\<lambda>x. run_callback (callback x)) ready w1)"

subsection \<open>Methods of the class\<close>

definition setEditorRef :: "nat option \<Rightarrow> 'm sys \<Rightarrow> 'm sys" where
  "setEditorRef n w = w\<lparr>editor := n\<rparr>"

definition handleOnChange :: "string \<Rightarrow> 'm sys \<Rightarrow> 'm sys" where
  "handleOnChange v w =
     (let cb = \<lparr>c_activeApiSpec = activeApiSpec w, c_v = v\<rparr>;
          w1 = clearTimeout (debounceTimeout w) w;
          (h, w2) = setTimeout cb 500 w1
      in w2\<lparr>debounceTimeout := Some h\<rparr>)"

text \<open>
  \<open>this.setState\<close> of React: the partial state is merged into \<open>this.state\<close>, the component
  renders again and \<open>componentDidUpdate\<close> runs with the props of before, which here are
  the current ones. On an instance that is no longer mounted the call changes nothing.
  \<open>_reLint\<close> is an async function: \<open>reLint_call\<close> is its body up to the \<open>await\<close>, the
  call \<open>spectral.run(activeApiSpec.contents)\<close>; \<open>reLint_resume\<close> is the rest, run when the
  promise of the engine settles, with \<open>Inl\<close> for a rejection and \<open>Inr\<close> for the results.
\<close>

definition reLint_call :: "'m sys \<Rightarrow> 'm sys" where
  "reLint_call w = w\<lparr>lint_runs := lint_runs w @ [contents (activeApiSpec w)]\<rparr>"

definition componentDidMount :: "'m sys \<Rightarrow> 'm sys" where
  "componentDidMount w = reLint_call w"

definition componentDidUpdate :: "'m api_spec_scheme \<Rightarrow> 'm sys \<Rightarrow> 'm sys" where
  "componentDidUpdate prevSpec w =
     (if contents (activeApiSpec w) \<noteq> contents prevSpec then reLint_call w else w)"

definition setState :: "(state \<Rightarrow> state) \<Rightarrow> 'm sys \<Rightarrow> 'm sys" where
  "setState f w =
     (if mounted w then componentDidUpdate (activeApiSpec w) (w\<lparr>state := f (state w)\<rparr>)
      else w)"

definition handleTogglePreview :: "'m sys \<Rightarrow> 'm sys" where
  "handleTogglePreview w = setState (\<lambda>s. s\<lparr>previewActive := \<not> previewActive (state w)\<rparr>) w"

definition lint_notice :: "violation \<Rightarrow> notice" where
  "lint_notice r =
     \<lparr>ntype = (if severity r = 0 then ''error'' else ''warning''),
      nmessage = code r @ '' '' @ message r,
      nline = line (start (vrange r)),
      n_range = vrange r\<rparr>"

definition reLint_resume :: "error + violation list \<Rightarrow> 'm sys \<Rightarrow> 'm outcome" where
  "reLint_resume settled w =
     (case settled of
        Inl e \<Rightarrow> (Inl e, w)
      | Inr results \<Rightarrow>
          (Inr (), setState (\<lambda>s. s\<lparr>lintMessages := map lint_notice results\<rparr>) w))"

text \<open>\<open>editor.setSelection\<close> of the CodeEditor widget: the call is logged with the widget.\<close>

definition handleSetSelection :: "nat \<Rightarrow> nat \<Rightarrow> nat \<Rightarrow> nat \<Rightarrow> 'm sys \<Rightarrow> 'm sys" where
  "handleSetSelection chStart chEnd lineStart lineEnd w =
     (case editor w of
        None \<Rightarrow> w
      | Some ed \<Rightarrow>
          w\<lparr>selections := selections w @ [(ed, chStart, chEnd, lineStart, lineEnd)]\<rparr>)"

text \<open>
  The properties of a \<open>WrapperDesign\<close> instance by name: the methods the class declares,
  the fields it assigns, and what it inherits from \<open>React.PureComponent\<close>. Only
  \<open>_handleSetSelection\<close> takes four numbers; the other members are listed for their names.
  A name that is not in the table reads as undefined.
\<close>

datatype 'm member =
    Method4 "nat \<Rightarrow> nat \<Rightarrow> nat \<Rightarrow> nat \<Rightarrow> 'm sys \<Rightarrow> 'm sys"
  | OtherMember

definition members :: "(string \<times> 'm member) list" where
  "members =
     [(''editor'', OtherMember), (''debounceTimeout'', OtherMember), (''state'', OtherMember),
      (''_setEditorRef'', OtherMember), (''_handleGenerateConfig'', OtherMember),
      (''_handleDebugSpec'', OtherMember), (''_handleTogglePreview'', OtherMember),
      (''_handleOnChange'', OtherMember), (''_handleSetSelection'', Method4 handleSetSelection),
      (''_handleLintClick'', OtherMember), (''_reLint'', OtherMember),
      (''_handleBreadcrumb'', OtherMember), (''componentDidMount'', OtherMember),
      (''componentDidUpdate'', OtherMember), (''render'', OtherMember),
      (''constructor'', OtherMember), (''props'', OtherMember), (''context'', OtherMember),
      (''refs'', OtherMember), (''updater'', OtherMember), (''setState'', OtherMember),
      (''forceUpdate'', OtherMember), (''isReactComponent'', OtherMember),
      (''isPureReactComponent'', OtherMember)]"

text \<open>
  \<open>_handleLintClick\<close> calls \<open>this.setSelection(start.character, end.character, start.line,
  end.line)\<close>. Calling a property that reads as undefined throws a TypeError. (A call of a
  member with another parameter list is not modelled; no such call is made.)
\<close>

definition handleLintClick :: "notice \<Rightarrow> 'm sys \<Rightarrow> 'm outcome" where
  "handleLintClick n w =
     (let s = start (n_range n); e = finish (n_range n)
      in case map_of members ''setSelection'' of
           None \<Rightarrow> (Inl (TypeError ''this.setSelection is not a function''), w)
         | Some (Method4 m) \<Rightarrow> (Inr (), m (character s) (character e) (line s) (line e) w)
         | Some OtherMember \<Rightarrow> (Inr (), w))"

text \<open>
  \<open>ACTIVITY_HOME\<close> is imported from the activity bar; it is passed in. The parent's
  callback \<open>handleSetActiveActivity\<close> is the log \<open>activities\<close>.
\<close>

definition handleBreadcrumb :: "string \<Rightarrow> nat \<Rightarrow> 'm sys \<Rightarrow> 'm sys" where
  "handleBreadcrumb ACTIVITY_HOME index w = w\<lparr>activities := activities w @ [ACTIVITY_HOME]\<rparr>"

subsection \<open>Rendering\<close>

text \<open>Truthiness of JavaScript, for \<open>YAML.parse(...) || {}\<close>.\<close>

fun truthy :: "jsvalue \<Rightarrow> bool" where
  "truthy JNull = False"
| "truthy (JBool b) = b"
| "truthy (JNum x) = (x \<noteq> 0)"
| "truthy JNaN = False"
| "truthy (JStr s) = (s \<noteq> [])"
| "truthy (JArr xs) = True"
| "truthy (JObj kvs) = True"

definition try_catch :: "error + 'a \<Rightarrow> (error \<Rightarrow> error + 'a) \<Rightarrow> error + 'a" where
  "try_catch body handler = (case body of Inl err \<Rightarrow> handler err | Inr x \<Rightarrow> Inr x)"

text \<open>
  \<open>render\<close>, with \<open>YAML.parse\<close> passed in as \<open>parse\<close>: \<open>Inl\<close> is an exception thrown by
  the parser.
\<close>

definition render :: "(string \<Rightarrow> error + jsvalue) \<Rightarrow> 'm sys \<Rightarrow> error + view" where
  "render parse w =
     (case try_catch
             (case parse (contents (activeApiSpec w)) of
                Inl err \<Rightarrow> Inl err
              | Inr doc \<Rightarrow> Inr (if truthy doc then doc else JObj []))
             (\<lambda>err. Inr (JObj []))
      of
        Inl err \<Rightarrow> Inl err
      | Inr spec \<Rightarrow>
          Inr \<lparr>swaggerSpec = spec,
               preview_hidden = (\<not> previewActive (state w)),
               preview_label = (if previewActive (state w) then ''Preview: On'' else ''Preview: Off''),
               defaultValue = contents (activeApiSpec w),
               uniquenessKey = spec_id (activeApiSpec w),
               noticeTable =
                 (if length (lintMessages (state w)) > 0 then Some (lintMessages (state w))
                  else None)\<rparr>)"

subsection \<open>Life of an instance\<close>

text \<open>
  A new instance in a fresh environment, with the initial \<open>state\<close> of the class; then
  mounting: the first render binds the editor ref and \<open>componentDidMount\<close> runs. The class
  declares no \<open>componentWillUnmount\<close>: on unmounting React only calls the ref callback
  with null.
\<close>

definition construct :: "'m api_spec_scheme \<Rightarrow> 'm sys" where
  "construct spec =
     \<lparr>activeApiSpec = spec,
      state = \<lparr>previewActive = True, lintMessages = []\<rparr>,
      editor = None, debounceTimeout = None, mounted = False,
      now = 0, next_timer = 0, timers = [],
      updates = [], lint_runs = [], selections = [], activities = [], unhandled = []\<rparr>"

definition mount :: "nat \<Rightarrow> 'm sys \<Rightarrow> 'm sys" where
  "mount widget w = componentDidMount (setEditorRef (Some widget) (w\<lparr>mounted := True\<rparr>))"

definition unmount :: "'m sys \<Rightarrow> 'm sys" where
  "unmount w = setEditorRef None (w\<lparr>mounted := False\<rparr>)"

text \<open>The parent renders the component again with \<open>spec\<close> as \<open>activeApiSpec\<close>.\<close>

definition rerender :: "'m api_spec_scheme \<Rightarrow> 'm sys \<Rightarrow> 'm sys" where
  "rerender spec w = componentDidUpdate (activeApiSpec w) (w\<lparr>activeApiSpec := spec\<rparr>)"

text \<open>
  What can happen to a mounted instance. An exception that leaves a handler, or a
  rejection of the promise of \<open>_reLint\<close> (which nobody awaits), ends in \<open>unhandled\<close>.
\<close>

datatype 'm event =
    Render "'m api_spec_scheme"
  | Change string
  | TogglePreview
  | LintSettled "error + violation list"
  | LintClick notice
  | SidebarSelect nat nat nat nat
  | Elapse nat

definition uncaught :: "'m outcome \<Rightarrow> 'm sys" where
  "uncaught r =
     (case r of
        (Inl e, w) \<Rightarrow> w\<lparr>unhandled := unhandled w @ [e]\<rparr>
      | (Inr u, w) \<Rightarrow> w)"

fun step :: "'m event \<Rightarrow> 'm sys \<Rightarrow> 'm sys" where
  "step (Render spec) w = rerender spec w"
| "step (Change v) w = handleOnChange v w"
| "step TogglePreview w = handleTogglePreview w"
| "step (LintSettled r) w = uncaught (reLint_resume r w)"
| "step (LintClick n) w = uncaught (handleLintClick n w)"
| "step (SidebarSelect a b c d) w = handleSetSelection a b c d w"
| "step (Elapse d) w = elapse d w"

fun run :: "'m event list \<Rightarrow> 'm sys \<Rightarrow> 'm sys" where
  "run [] w = w"
| "run (e # es) w = run es (step e w)"

subsection \<open>Traces\<close>

text \<open>
  Vocabulary for the statements about edits: an event list is \<open>quiet\<close> when no edit
  occurs in it, \<open>elapsed\<close> is the time that passes in it, and \<open>window\<close> lays out a
  sequence of edits, each with the events that come before it.
\<close>

fun is_Change :: "'m event \<Rightarrow> bool" where
  "is_Change (Change v) = True"
| "is_Change e = False"

fun quiet :: "'m event list \<Rightarrow> bool" where
  "quiet [] = True"
| "quiet (e # es) = (\<not> is_Change e \<and> quiet es)"

fun elapsed :: "'m event list \<Rightarrow> nat" where
  "elapsed [] = 0"
| "elapsed (Elapse d # es) = d + elapsed es"
| "elapsed (e # es) = elapsed es"

fun window :: "('m event list \<times> string) list \<Rightarrow> 'm event list" where
  "window [] = []"
| "window ((es, v) # r) = es @ Change v # window r"

text \<open>
  The runs of the linter that the triggers in words ask for after mounting: one for each
  render whose contents differ from the contents of the render before it, with the new
  contents. \<open>prev\<close> is the contents of the previous render.
\<close>

fun relints_by_spec :: "string \<Rightarrow> 'm event list \<Rightarrow> string list" where
  "relints_by_spec prev [] = []"
| "relints_by_spec prev (Render spec # es) =
     (if contents spec \<noteq> prev then [contents spec] else []) @ relints_by_spec (contents spec) es"
| "relints_by_spec prev (e # es) = relints_by_spec prev es"

text \<open>
  \<open>YAML.parse\<close> belongs to the yaml package. As a concrete parser for examples,
  \<open>sample_parse\<close> gives its result on three texts: null for the empty document, the
  mapping for \<open>openapi: 3.0.0\<close>, and an exception otherwise.
\<close>

fun sample_parse :: "string \<Rightarrow> error + jsvalue" where
  "sample_parse s =
     (if s = '''' then Inr JNull
      else if s = ''openapi: 3.0.0'' then Inr (JObj [(''openapi'', JStr ''3.0.0'')])
      else Inl (YAMLError ''not a document''))"

section \<open>Properties\<close>

subsection \<open>Timers and quiet intervals\<close>

lemma run_append: "run (xs @ ys) w = run ys (run xs w)"
  by (induction xs arbitrary: w) simp_all

lemma fold_run_callback:
  "fold (\<lambda>x. run_callback (callback x)) xs w =
     w\<lparr>updates := updates w @ map (\<lambda>x. (c_activeApiSpec (callback x))\<lparr>contents := c_v (callback x)\<rparr>) xs\<rparr>"
  by (induction xs arbitrary: w) (simp_all add: run_callback_def handleUpdateApiSpec_def)

lemma elapse_eq:
  "elapse d w =
     w\<lparr>timers := filter (\<lambda>x. \<not> due x \<le> now w + d) (timers w),
       now := now w + d,
       updates := updates w @
         map (\<lambda>x. (c_activeApiSpec (callback x))\<lparr>contents := c_v (callback x)\<rparr>)
           (sort_key due (filter (\<lambda>x. due x \<le> now w + d) (timers w)))\<rparr>"
  by (simp add: elapse_def Let_def fold_run_callback)

lemma map_of_members_setSelection: "map_of members ''setSelection'' = None"
  by (simp add: members_def)

lemma handleLintClick_throws:
  "handleLintClick n w = (Inl (TypeError ''this.setSelection is not a function''), w)"
  by (simp add: handleLintClick_def Let_def map_of_members_setSelection)

lemma step_frame:
  assumes "\<not> is_Change e" "\<forall>d. e \<noteq> Elapse d"
  shows "timers (step e w) = timers w" "debounceTimeout (step e w) = debounceTimeout w"
    "updates (step e w) = updates w" "now (step e w) = now w"
  using assms
  by (cases e; simp add: rerender_def componentDidUpdate_def reLint_call_def handleTogglePreview_def
      setState_def uncaught_def reLint_resume_def handleLintClick_throws handleSetSelection_def
      split: sum.splits option.splits)+

lemma handleOnChange_fresh:
  assumes "timers w = [] \<or> (\<exists>t. timers w = [t] \<and> debounceTimeout w = Some (tid t))"
  shows "handleOnChange v w =
     w\<lparr>timers := [\<lparr>tid = next_timer w, due = now w + 500,
                   callback = \<lparr>c_activeApiSpec = activeApiSpec w, c_v = v\<rparr>\<rparr>],
       next_timer := Suc (next_timer w),
       debounceTimeout := Some (next_timer w)\<rparr>"
  using assms
  by (auto simp add: handleOnChange_def clearTimeout_def setTimeout_def Let_def split: option.splits)

lemma quiet_no_timers:
  "timers w = [] \<Longrightarrow> quiet es \<Longrightarrow> timers (run es w) = [] \<and> updates (run es w) = updates w"
proof (induction es arbitrary: w)
  case Nil
  then show ?case by simp
next
  case (Cons e es)
  show ?case
  proof (cases "\<exists>d. e = Elapse d")
    case True
    then obtain d where e: "e = Elapse d" by blast
    have "timers (elapse d w) = []" "updates (elapse d w) = updates w"
      using Cons.prems(1) by (simp_all add: elapse_eq)
    with Cons.IH [of "elapse d w"] Cons.prems(2) e show ?thesis by simp
  next
    case False
    with Cons.prems have "timers (step e w) = []" "updates (step e w) = updates w"
      by (simp_all add: step_frame)
    with Cons.IH [of "step e w"] Cons.prems(2) show ?thesis by simp
  qed
qed

lemma elapsed_not_Elapse: "\<forall>d. e \<noteq> Elapse d \<Longrightarrow> elapsed (e # es) = elapsed es"
  by (cases e) simp_all

lemma quiet_before_due:
  "timers w = [t] \<Longrightarrow> quiet es \<Longrightarrow> now w + elapsed es < due t \<Longrightarrow>
     timers (run es w) = [t] \<and> debounceTimeout (run es w) = debounceTimeout w \<and>
     updates (run es w) = updates w \<and> now (run es w) = now w + elapsed es"
proof (induction es arbitrary: w)
  case Nil
  then show ?case by simp
next
  case (Cons e es)
  show ?case
  proof (cases "\<exists>d. e = Elapse d")
    case True
    then obtain d where e: "e = Elapse d" by blast
    from Cons.prems e have lt: "now w + d + elapsed es < due t" by simp
    then have nd: "\<not> due t \<le> now w + d" by simp
    have st: "timers (elapse d w) = [t]" "updates (elapse d w) = updates w"
      "now (elapse d w) = now w + d" "debounceTimeout (elapse d w) = debounceTimeout w"
      using Cons.prems(1) nd by (simp_all add: elapse_eq)
    from Cons.IH [of "elapse d w"] st lt Cons.prems(2) e show ?thesis by simp
  next
    case False
    then have ne: "\<forall>d. e \<noteq> Elapse d" by blast
    from Cons.prems(2) have nc: "\<not> is_Change e" and q: "quiet es" by simp_all
    have st: "timers (step e w) = [t]" "updates (step e w) = updates w"
      "now (step e w) = now w" "debounceTimeout (step e w) = debounceTimeout w"
      using Cons.prems(1) by (simp_all add: step_frame [OF nc ne])
    from Cons.prems(3) have "now (step e w) + elapsed es < due t"
      by (simp add: st elapsed_not_Elapse [OF ne])
    from Cons.IH [OF st(1) q this] st show ?thesis
      by (simp add: elapsed_not_Elapse [OF ne])
  qed
qed

lemma quiet_until_due:
  "timers w = [t] \<Longrightarrow> quiet es \<Longrightarrow> due t \<le> now w + elapsed es \<Longrightarrow> now w < due t \<Longrightarrow>
     timers (run es w) = [] \<and>
     updates (run es w) = updates w @ [(c_activeApiSpec (callback t))\<lparr>contents := c_v (callback t)\<rparr>]"
proof (induction es arbitrary: w)
  case Nil
  then show ?case by simp
next
  case (Cons e es)
  from Cons.prems(2) have nc: "\<not> is_Change e" and q: "quiet es" by simp_all
  show ?case
  proof (cases "\<exists>d. e = Elapse d")
    case True
    then obtain d where e: "e = Elapse d" by blast
    show ?thesis
    proof (cases "due t \<le> now w + d")
      case True
      have st: "timers (elapse d w) = []"
        "updates (elapse d w) = updates w @ [(c_activeApiSpec (callback t))\<lparr>contents := c_v (callback t)\<rparr>]"
        using Cons.prems(1) True by (simp_all add: elapse_eq)
      from quiet_no_timers [OF st(1) q] st e show ?thesis by simp
    next
      case False
      have st: "timers (elapse d w) = [t]" "updates (elapse d w) = updates w"
        "now (elapse d w) = now w + d"
        using Cons.prems(1) False by (simp_all add: elapse_eq)
      from Cons.prems(3) e have "due t \<le> now (elapse d w) + elapsed es" by (simp add: st)
      moreover from False have "now (elapse d w) < due t" by (simp add: st)
      ultimately show ?thesis using Cons.IH [OF st(1) q] st e by simp
    qed
  next
    case False
    then have ne: "\<forall>d. e \<noteq> Elapse d" by blast
    have st: "timers (step e w) = [t]" "updates (step e w) = updates w"
      "now (step e w) = now w"
      using Cons.prems(1) by (simp_all add: step_frame [OF nc ne])
    from Cons.prems(3) have "due t \<le> now (step e w) + elapsed es"
      by (simp add: st elapsed_not_Elapse [OF ne])
    moreover from Cons.prems(4) have "now (step e w) < due t" by (simp add: st)
    ultimately show ?thesis using Cons.IH [OF st(1) q] st by simp
  qed
qed

lemma window_pending:
  "timers w = [] \<or> (\<exists>t. timers w = [t] \<and> debounceTimeout w = Some (tid t)) \<Longrightarrow>
   list_all (\<lambda>(es, v). quiet es \<and> elapsed es < 500) r \<Longrightarrow>
   \<exists>t. timers (run (Change v0 # window r) w) = [t] \<and>
       debounceTimeout (run (Change v0 # window r) w) = Some (tid t) \<and>
       due t = now (run (Change v0 # window r) w) + 500 \<and>
       callback t = \<lparr>c_activeApiSpec = activeApiSpec (run (Change v0 # window r) w),
                     c_v = last (v0 # map snd r)\<rparr> \<and>
       updates (run (Change v0 # window r) w) = updates w"
proof (induction r arbitrary: w v0)
  case Nil
  then show ?case by (simp add: handleOnChange_fresh)
next
  case (Cons p r)
  obtain es v where p: "p = (es, v)" by (cases p)
  define w1 where "w1 = handleOnChange v0 w"
  define t1 where "t1 = \<lparr>tid = next_timer w, due = now w + 500,
                   callback = \<lparr>c_activeApiSpec = activeApiSpec w, c_v = v0\<rparr>\<rparr>"
  have w1: "timers w1 = [t1]" "debounceTimeout w1 = Some (tid t1)" "updates w1 = updates w"
    "now w1 = now w"
    unfolding w1_def t1_def using Cons.prems(1) by (simp_all add: handleOnChange_fresh)
  from Cons.prems(2) p have q: "quiet es" and lt: "elapsed es < 500"
    and rest: "list_all (\<lambda>(es, v). quiet es \<and> elapsed es < 500) r" by simp_all
  have "now w1 + elapsed es < due t1" using lt by (simp add: w1 t1_def)
  from quiet_before_due [OF w1(1) q this]
  have w2: "timers (run es w1) = [t1]" "debounceTimeout (run es w1) = Some (tid t1)"
    "updates (run es w1) = updates w" by (simp_all add: w1)
  then have pre: "timers (run es w1) = [] \<or>
      (\<exists>t. timers (run es w1) = [t] \<and> debounceTimeout (run es w1) = Some (tid t))" by simp
  have eq: "run (Change v0 # window (p # r)) w = run (Change v # window r) (run es w1)"
    by (simp add: p w1_def run_append)
  from Cons.IH [OF pre rest, of v] show ?case
    unfolding eq by (simp add: w2 p)
qed

lemma rerender_lint_runs:
  "lint_runs (rerender spec w) =
     (if contents spec \<noteq> contents (activeApiSpec w) then lint_runs w @ [contents spec]
      else lint_runs w)"
  by (simp add: rerender_def componentDidUpdate_def reLint_call_def)

lemma rerender_activeApiSpec: "activeApiSpec (rerender spec w) = spec"
  by (simp add: rerender_def componentDidUpdate_def reLint_call_def)

lemma step_lint_frame:
  assumes "\<forall>spec. e \<noteq> Render spec"
  shows "lint_runs (step e w) = lint_runs w" "activeApiSpec (step e w) = activeApiSpec w"
  using assms
  by (cases e; simp add: handleOnChange_def clearTimeout_def setTimeout_def Let_def
      componentDidUpdate_def reLint_call_def handleTogglePreview_def elapse_eq
      setState_def uncaught_def reLint_resume_def handleLintClick_throws handleSetSelection_def
      split: sum.splits option.splits)+

lemma relints_not_Render:
  "\<forall>spec. e \<noteq> Render spec \<Longrightarrow> relints_by_spec prev (e # es) = relints_by_spec prev es"
  by (cases e) simp_all

lemma lint_runs_run:
  "lint_runs (run es w) = lint_runs w @ relints_by_spec (contents (activeApiSpec w)) es"
proof (induction es arbitrary: w)
  case Nil
  show ?case by simp
next
  case (Cons e es)
  show ?case
  proof (cases "\<exists>spec. e = Render spec")
    case True
    then obtain spec where e: "e = Render spec" by blast
    show ?thesis
      by (simp add: e Cons.IH rerender_lint_runs rerender_activeApiSpec)
  next
    case False
    then have ne: "\<forall>spec. e \<noteq> Render spec" by blast
    show ?thesis
      by (simp add: Cons.IH step_lint_frame [OF ne] relints_not_Render [OF ne])
  qed
qed

lemma mount_construct:
  "lint_runs (mount ed (construct spec)) = [contents spec]"
  "activeApiSpec (mount ed (construct spec)) = spec"
  by (simp_all add: mount_def construct_def componentDidMount_def reLint_call_def setEditorRef_def)

lemma unmount_frame:
  "timers (unmount w) = timers w" "updates (unmount w) = updates w" "now (unmount w) = now w"
  "\<not> mounted (unmount w)" "editor (unmount w) = None"
  by (simp_all add: unmount_def setEditorRef_def)

subsection \<open>Debounced persistence\<close>

text \<open>
  C1. A debounce window: an edit \<open>v0\<close> made while no commit is pending, followed by the
  edits of \<open>r\<close>, each less than 500 time units after the one before it (other events,
  such as renders, may occur in between), and then a quiet interval \<open>after\<close> of at least
  500 units. While the window is open nothing is committed and exactly one timeout is
  pending, each edit having cancelled the one before; at the end exactly one call of
  \<open>handleUpdateApiSpec\<close> has been made, and its contents are the text of the last edit.
\<close>

theorem debounce_window_commits_last_edit:
  assumes "timers w = []"
    and "list_all (\<lambda>(es, v). quiet es \<and> elapsed es < 500) r"
    and "quiet after" and "500 \<le> elapsed after"
  shows "updates (run (Change v0 # window r) w) = updates w \<and>
         length (timers (run (Change v0 # window r) w)) = 1 \<and>
         updates (run (Change v0 # window r @ after) w) =
           updates w @ [(activeApiSpec (run (Change v0 # window r) w))\<lparr>contents := last (v0 # map snd r)\<rparr>]"
proof -
  define wf where "wf = run (Change v0 # window r) w"
  from window_pending [of w r v0] assms(1,2)
  obtain t where t: "timers wf = [t]" "due t = now wf + 500"
    "callback t = \<lparr>c_activeApiSpec = activeApiSpec wf, c_v = last (v0 # map snd r)\<rparr>"
    "updates wf = updates w" unfolding wf_def by blast
  have "due t \<le> now wf + elapsed after" "now wf < due t" using assms(4) t(2) by simp_all
  from quiet_until_due [OF t(1) assms(3) this]
  have "updates (run after wf) = updates w @ [(activeApiSpec wf)\<lparr>contents := last (v0 # map snd r)\<rparr>]"
    by (simp only: t(3,4) closure.simps)
  moreover have "run (Change v0 # window r @ after) w = run after wf"
    unfolding wf_def using run_append [of "Change v0 # window r" after w] by simp
  moreover have "length (timers wf) = 1" using t(1) by simp
  ultimately show ?thesis using t(4) unfolding wf_def by (simp only:)
qed

theorem debounce_window_witness:
  "timers (mount 1 (construct \<lparr>spec_id = ''spc_1'', contents = ''openapi: 3.0.0''\<rparr>)) = [] \<and>
   list_all (\<lambda>(es, v). quiet es \<and> elapsed es < 500)
     [([Elapse 100], ''ab''), ([Elapse 499, TogglePreview], ''abc'')] \<and>
   quiet [Elapse 200, Elapse 300 :: unit event] \<and>
   500 \<le> elapsed [Elapse 200, Elapse 300 :: unit event] \<and>
   updates (run (Change ''a'' # window [([Elapse 100], ''ab''), ([Elapse 499, TogglePreview], ''abc'')]
                   @ [Elapse 200, Elapse 300])
              (mount 1 (construct \<lparr>spec_id = ''spc_1'', contents = ''openapi: 3.0.0''\<rparr>)))
     = [\<lparr>spec_id = ''spc_1'', contents = ''abc''\<rparr>]"
proof -
  have h1: "timers (mount 1 (construct \<lparr>spec_id = ''spc_1'', contents = ''openapi: 3.0.0''\<rparr>)) = []"
    by (simp add: mount_def construct_def componentDidMount_def reLint_call_def setEditorRef_def)
  have h2: "list_all (\<lambda>(es, v). quiet es \<and> elapsed es < 500)
     [([Elapse 100 :: unit event], ''ab''), ([Elapse 499, TogglePreview], ''abc'')]"
    by simp
  have h3: "quiet [Elapse 200, Elapse 300 :: unit event]" by simp
  have h4: "500 \<le> elapsed [Elapse 200, Elapse 300 :: unit event]" by simp
  have a: "activeApiSpec (run (Change ''a'' # window [([Elapse 100], ''ab''), ([Elapse 499, TogglePreview], ''abc'')])
      (mount 1 (construct \<lparr>spec_id = ''spc_1'', contents = ''openapi: 3.0.0''\<rparr>)))
     = \<lparr>spec_id = ''spc_1'', contents = ''openapi: 3.0.0''\<rparr>"
    by (simp add: lint_runs_run step_lint_frame mount_construct handleOnChange_def clearTimeout_def
        setTimeout_def elapse_eq handleTogglePreview_def setState_def componentDidUpdate_def
        mount_def construct_def componentDidMount_def reLint_call_def setEditorRef_def)
  have u: "updates (mount 1 (construct \<lparr>spec_id = ''spc_1'', contents = ''openapi: 3.0.0''\<rparr>)) = []"
    by (simp add: mount_def construct_def componentDidMount_def reLint_call_def setEditorRef_def)
  from debounce_window_commits_last_edit [OF h1 h2 h3 h4, of "''a''"] h1 h2 h3 h4 show ?thesis
    by (simp only: a u) simp
qed

text \<open>
  C8. When the debounced commit of an edit \<open>v\<close> fires, the record passed to
  \<open>handleUpdateApiSpec\<close> has \<open>v\<close> as contents and agrees with the spec record of the
  edit in the identifier and in every other field.
\<close>

theorem commit_changes_contents_only:
  assumes "timers w = []" and "quiet es" and "500 \<le> elapsed es"
  shows "\<exists>r. updates (run (Change v # es) w) = updates w @ [r] \<and>
     contents r = v \<and>
     spec_id r = spec_id (activeApiSpec w) \<and>
     api_spec.more r = api_spec.more (activeApiSpec w)"
proof -
  define t where "t = \<lparr>tid = next_timer w, due = now w + 500,
                   callback = \<lparr>c_activeApiSpec = activeApiSpec w, c_v = v\<rparr>\<rparr>"
  have w1: "timers (handleOnChange v w) = [t]" "updates (handleOnChange v w) = updates w"
    "now (handleOnChange v w) = now w"
    unfolding t_def using assms(1) by (simp_all add: handleOnChange_fresh)
  have "due t \<le> now (handleOnChange v w) + elapsed es" "now (handleOnChange v w) < due t"
    using assms(3) by (simp_all add: w1 t_def)
  from quiet_until_due [OF w1(1) assms(2) this]
  have "updates (run (Change v # es) w) = updates w @ [(activeApiSpec w)\<lparr>contents := v\<rparr>]"
    by (simp add: w1 t_def)
  then show ?thesis by simp
qed

theorem commit_changes_contents_only_witness:
  "timers (mount 1 (construct \<lparr>spec_id = ''spc_1'', contents = ''a'', \<dots> = ''wrk_1''\<rparr>)) = [] \<and>
   quiet [Elapse 250, TogglePreview, Elapse 250 :: string event] \<and>
   500 \<le> elapsed [Elapse 250, TogglePreview, Elapse 250 :: string event] \<and>
   (\<exists>r. updates (run [Change ''ab'', Elapse 250, TogglePreview, Elapse 250]
                  (mount 1 (construct \<lparr>spec_id = ''spc_1'', contents = ''a'', \<dots> = ''wrk_1''\<rparr>)))
          = [r] \<and> contents r = ''ab'' \<and> spec_id r = ''spc_1'' \<and> api_spec.more r = ''wrk_1'')"
proof -
  have h: "timers (mount 1 (construct \<lparr>spec_id = ''spc_1'', contents = ''a'', \<dots> = ''wrk_1''\<rparr>)) = []"
    by (simp add: mount_def construct_def componentDidMount_def reLint_call_def setEditorRef_def)
  have u: "updates (mount 1 (construct \<lparr>spec_id = ''spc_1'', contents = ''a'', \<dots> = ''wrk_1''\<rparr>)) = []"
    "activeApiSpec (mount 1 (construct \<lparr>spec_id = ''spc_1'', contents = ''a'', \<dots> = ''wrk_1''\<rparr>))
       = \<lparr>spec_id = ''spc_1'', contents = ''a'', \<dots> = ''wrk_1''\<rparr>"
    by (simp_all add: mount_def construct_def componentDidMount_def reLint_call_def setEditorRef_def)
  have q: "quiet [Elapse 250, TogglePreview, Elapse 250 :: string event]" by simp
  have e: "500 \<le> elapsed [Elapse 250, TogglePreview, Elapse 250 :: string event]" by simp
  from commit_changes_contents_only [OF h q e, of "''ab''"] h q e show ?thesis
    by (simp only: u) simp
qed

text \<open>
  C9. The record that the commit spreads is the one captured when the edit was made: if
  the parent renders the component with another record \<open>spec2\<close> during the debounce
  interval, \<open>spec2\<close> is the current record when the timeout fires, and the commit still
  writes the fields of the record of the edit.
\<close>

theorem commit_uses_spec_of_edit:
  assumes "timers w = []" and "500 \<le> d1 + d2"
  shows "activeApiSpec (run [Change v, Elapse d1, Render spec2, Elapse d2] w) = spec2 \<and>
     updates (run [Change v, Elapse d1, Render spec2, Elapse d2] w) =
       updates w @ [(activeApiSpec w)\<lparr>contents := v\<rparr>]"
proof -
  define t where "t = \<lparr>tid = next_timer w, due = now w + 500,
                   callback = \<lparr>c_activeApiSpec = activeApiSpec w, c_v = v\<rparr>\<rparr>"
  have w1: "timers (handleOnChange v w) = [t]" "updates (handleOnChange v w) = updates w"
    "now (handleOnChange v w) = now w"
    unfolding t_def using assms(1) by (simp_all add: handleOnChange_fresh)
  have q: "quiet [Elapse d1, Render spec2, Elapse d2 :: 'a event]" by simp
  have "due t \<le> now (handleOnChange v w) + elapsed [Elapse d1, Render spec2, Elapse d2 :: 'a event]"
    "now (handleOnChange v w) < due t"
    using assms(2) by (simp_all add: w1 t_def)
  from quiet_until_due [OF w1(1) q this]
  have "updates (run [Change v, Elapse d1, Render spec2, Elapse d2] w) =
      updates w @ [(activeApiSpec w)\<lparr>contents := v\<rparr>]"
    by (simp add: w1 t_def)
  moreover have "activeApiSpec (run [Change v, Elapse d1, Render spec2, Elapse d2] w) = spec2"
    by (simp add: elapse_eq rerender_activeApiSpec)
  ultimately show ?thesis by simp
qed

theorem commit_uses_spec_of_edit_witness:
  "timers (mount 1 (construct \<lparr>spec_id = ''spc_1'', contents = ''a'', \<dots> = ''old.yaml''\<rparr>)) = [] \<and>
   (500::nat) \<le> 100 + 400 \<and>
   activeApiSpec (run [Change ''ab'', Elapse 100,
                       Render \<lparr>spec_id = ''spc_1'', contents = ''a'', \<dots> = ''new.yaml''\<rparr>, Elapse 400]
     (mount 1 (construct \<lparr>spec_id = ''spc_1'', contents = ''a'', \<dots> = ''old.yaml''\<rparr>)))
     = \<lparr>spec_id = ''spc_1'', contents = ''a'', \<dots> = ''new.yaml''\<rparr> \<and>
   updates (run [Change ''ab'', Elapse 100,
                 Render \<lparr>spec_id = ''spc_1'', contents = ''a'', \<dots> = ''new.yaml''\<rparr>, Elapse 400]
     (mount 1 (construct \<lparr>spec_id = ''spc_1'', contents = ''a'', \<dots> = ''old.yaml''\<rparr>)))
     = [\<lparr>spec_id = ''spc_1'', contents = ''ab'', \<dots> = ''old.yaml''\<rparr>]"
proof -
  have h: "timers (mount 1 (construct \<lparr>spec_id = ''spc_1'', contents = ''a'', \<dots> = ''old.yaml''\<rparr>)) = []"
    by (simp add: mount_def construct_def componentDidMount_def reLint_call_def setEditorRef_def)
  have u: "updates (mount 1 (construct \<lparr>spec_id = ''spc_1'', contents = ''a'', \<dots> = ''old.yaml''\<rparr>)) = []"
    "activeApiSpec (mount 1 (construct \<lparr>spec_id = ''spc_1'', contents = ''a'', \<dots> = ''old.yaml''\<rparr>))
       = \<lparr>spec_id = ''spc_1'', contents = ''a'', \<dots> = ''old.yaml''\<rparr>"
    by (simp_all add: mount_def construct_def componentDidMount_def reLint_call_def setEditorRef_def)
  have e: "(500::nat) \<le> 100 + 400" by simp
  from commit_uses_spec_of_edit [OF h e, of "''ab''"
         "\<lparr>spec_id = ''spc_1'', contents = ''a'', \<dots> = ''new.yaml''\<rparr>"] h
  show ?thesis by (simp only: u) simp
qed

text \<open>
  C6, as the code has it. The class has no teardown hook. Unmounting while a commit is
  pending leaves the timeout in place, and once the 500 units have passed the commit is
  made on the unmounted instance, with the record of the edit and the edited text.
\<close>

theorem unmount_keeps_timer:
  assumes "timers w = []" and "500 \<le> d"
  shows "timers (unmount (handleOnChange v w)) = timers (handleOnChange v w) \<and>
     length (timers (unmount (handleOnChange v w))) = 1 \<and>
     \<not> mounted (unmount (handleOnChange v w)) \<and>
     updates (unmount (handleOnChange v w)) = updates w \<and>
     updates (elapse d (unmount (handleOnChange v w))) = updates w @ [(activeApiSpec w)\<lparr>contents := v\<rparr>]"
  using assms by (simp add: unmount_frame handleOnChange_fresh elapse_eq)

theorem unmount_keeps_timer_witness:
  "timers (mount 1 (construct \<lparr>spec_id = ''spc_1'', contents = ''a''\<rparr>)) = [] \<and>
   (500::nat) \<le> 500 \<and>
   \<not> mounted (unmount (handleOnChange ''x'' (mount 1 (construct \<lparr>spec_id = ''spc_1'', contents = ''a''\<rparr>)))) \<and>
   updates (elapse 500 (unmount (handleOnChange ''x'' (mount 1 (construct \<lparr>spec_id = ''spc_1'', contents = ''a''\<rparr>)))))
     = [\<lparr>spec_id = ''spc_1'', contents = ''x''\<rparr>]"
proof -
  have h: "timers (mount 1 (construct \<lparr>spec_id = ''spc_1'', contents = ''a''\<rparr>)) = []"
    by (simp add: mount_def construct_def componentDidMount_def reLint_call_def setEditorRef_def)
  have u: "updates (mount 1 (construct \<lparr>spec_id = ''spc_1'', contents = ''a''\<rparr>)) = []"
    "activeApiSpec (mount 1 (construct \<lparr>spec_id = ''spc_1'', contents = ''a''\<rparr>))
       = \<lparr>spec_id = ''spc_1'', contents = ''a''\<rparr>"
    by (simp_all add: mount_def construct_def componentDidMount_def reLint_call_def setEditorRef_def)
  from unmount_keeps_timer [OF h, of 500 "''x''"] h show ?thesis by (simp only: u) simp
qed

text \<open>
  An edit, then unmounting, then 500 time units: the timeout is still pending after the
  teardown, and the commit is made.
\<close>

theorem unmount_pending_counterexample:
  "\<not> mounted (unmount (handleOnChange ''x'' (mount 1 (construct \<lparr>spec_id = ''spc_1'', contents = ''''\<rparr>)))) \<and>
   timers (unmount (handleOnChange ''x'' (mount 1 (construct \<lparr>spec_id = ''spc_1'', contents = ''''\<rparr>)))) \<noteq> [] \<and>
   updates (unmount (handleOnChange ''x'' (mount 1 (construct \<lparr>spec_id = ''spc_1'', contents = ''''\<rparr>)))) = [] \<and>
   updates (elapse 500 (unmount (handleOnChange ''x'' (mount 1 (construct \<lparr>spec_id = ''spc_1'', contents = ''''\<rparr>)))))
     = [\<lparr>spec_id = ''spc_1'', contents = ''x''\<rparr>]"
  by (simp add: unmount_def setEditorRef_def handleOnChange_def clearTimeout_def setTimeout_def
      mount_def construct_def componentDidMount_def reLint_call_def elapse_eq)

subsection \<open>Lint pipeline\<close>

text \<open>
  C2. When the engine returns the violations \<open>rs\<close> to a mounted instance, the stored
  diagnostic list has one entry for each violation, in the order of the engine, whatever
  the list was before: the type is \<open>error\<close> for severity 0 and \<open>warning\<close> otherwise, the
  message is the rule code, a space and the message text, the line is the start line of
  the range, and the range is kept.
\<close>

theorem relint_maps_violations:
  assumes "mounted w"
  shows "fst (reLint_resume (Inr rs) w) = Inr () \<and>
     length (lintMessages (state (snd (reLint_resume (Inr rs) w)))) = length rs \<and>
     (\<forall>i<length rs.
        ntype (lintMessages (state (snd (reLint_resume (Inr rs) w))) ! i) =
          (if severity (rs ! i) = 0 then ''error'' else ''warning'') \<and>
        nmessage (lintMessages (state (snd (reLint_resume (Inr rs) w))) ! i) =
          code (rs ! i) @ '' '' @ message (rs ! i) \<and>
        nline (lintMessages (state (snd (reLint_resume (Inr rs) w))) ! i) =
          line (start (vrange (rs ! i))) \<and>
        n_range (lintMessages (state (snd (reLint_resume (Inr rs) w))) ! i) = vrange (rs ! i))"
proof -
  have "lintMessages (state (snd (reLint_resume (Inr rs) w))) = map lint_notice rs"
    using assms by (simp add: reLint_resume_def setState_def componentDidUpdate_def)
  then show ?thesis by (simp add: reLint_resume_def lint_notice_def)
qed

theorem relint_maps_violations_witness:
  "mounted (mount 1 (construct \<lparr>spec_id = ''spc_1'', contents = ''openapi: 3.0.0''\<rparr>)) \<and>
   (0::nat) < length
     [\<lparr>severity = 0, code = ''E1'', message = ''bad'',
       vrange = \<lparr>start = \<lparr>line = 2, character = 0\<rparr>, finish = \<lparr>line = 2, character = 10\<rparr>\<rparr>\<rparr>,
      \<lparr>severity = 1, code = ''W2'', message = ''odd'',
       vrange = \<lparr>start = \<lparr>line = 0, character = 3\<rparr>, finish = \<lparr>line = 1, character = 4\<rparr>\<rparr>\<rparr>] \<and>
   lintMessages (state (snd (reLint_resume
     (Inr [\<lparr>severity = 0, code = ''E1'', message = ''bad'',
            vrange = \<lparr>start = \<lparr>line = 2, character = 0\<rparr>, finish = \<lparr>line = 2, character = 10\<rparr>\<rparr>\<rparr>,
           \<lparr>severity = 1, code = ''W2'', message = ''odd'',
            vrange = \<lparr>start = \<lparr>line = 0, character = 3\<rparr>, finish = \<lparr>line = 1, character = 4\<rparr>\<rparr>\<rparr>])
     (mount 1 (construct \<lparr>spec_id = ''spc_1'', contents = ''openapi: 3.0.0''\<rparr>))))) ! 0
   = \<lparr>ntype = ''error'', nmessage = ''E1 bad'', nline = 2,
      n_range = \<lparr>start = \<lparr>line = 2, character = 0\<rparr>, finish = \<lparr>line = 2, character = 10\<rparr>\<rparr>\<rparr>"
proof -
  have h: "mounted (mount 1 (construct \<lparr>spec_id = ''spc_1'', contents = ''openapi: 3.0.0''\<rparr>))"
    by (simp add: mount_def construct_def componentDidMount_def reLint_call_def setEditorRef_def)
  from relint_maps_violations [OF h, THEN conjunct2, THEN conjunct2, rule_format, of 0] h
  show ?thesis by simp
qed

text \<open>
  C7. When the engine rejects, the rejection leaves \<open>_reLint\<close> as it came, nothing in the
  component catches it, and the state, with the stored diagnostic list, is as before.
\<close>

theorem relint_rejection_uncaught:
  "fst (reLint_resume (Inl e) w) = Inl e \<and>
   state (snd (reLint_resume (Inl e) w)) = state w \<and>
   unhandled (step (LintSettled (Inl e)) w) = unhandled w @ [e] \<and>
   lintMessages (state (step (LintSettled (Inl e)) w)) = lintMessages (state w)"
  by (simp add: reLint_resume_def uncaught_def)

text \<open>
  C4. Mounting runs the linter once, on the initial contents. Over any events after
  that, the linter runs again exactly at the renders whose contents differ from those of
  the render before, on the new contents; a render with the same contents, and every
  other event, runs nothing.
\<close>

theorem relint_triggers:
  "lint_runs (mount ed (construct spec)) = [contents spec] \<and>
   lint_runs (run es (mount ed (construct spec))) = contents spec # relints_by_spec (contents spec) es \<and>
   lint_runs (rerender spec' w) =
     (if contents spec' \<noteq> contents (activeApiSpec w) then lint_runs w @ [contents spec']
      else lint_runs w)"
  by (simp add: lint_runs_run mount_construct rerender_lint_runs)

subsection \<open>Diagnostic interaction\<close>

text \<open>
  C3. Clicking the diagnostic with range (3, 5) to (4, 2) while widget 7 is bound: the
  handler throws a TypeError and no selection is requested. Called directly,
  \<open>_handleSetSelection\<close> requests the selection (5, 2, 3, 4) on the widget.
\<close>

theorem lint_click_throws:
  "handleLintClick
     \<lparr>ntype = ''error'', nmessage = ''E1 bad'', nline = 3,
      n_range = \<lparr>start = \<lparr>line = 3, character = 5\<rparr>, finish = \<lparr>line = 4, character = 2\<rparr>\<rparr>\<rparr>
     (mount 7 (construct \<lparr>spec_id = ''spc_1'', contents = ''openapi: 3.0.0''\<rparr>))
   = (Inl (TypeError ''this.setSelection is not a function''),
      mount 7 (construct \<lparr>spec_id = ''spc_1'', contents = ''openapi: 3.0.0''\<rparr>)) \<and>
   selections (mount 7 (construct \<lparr>spec_id = ''spc_1'', contents = ''openapi: 3.0.0''\<rparr>)) = [] \<and>
   selections (handleSetSelection 5 2 3 4
      (mount 7 (construct \<lparr>spec_id = ''spc_1'', contents = ''openapi: 3.0.0''\<rparr>))) = [(7, 5, 2, 3, 4)]"
  by (simp add: handleLintClick_def members_def handleSetSelection_def mount_def construct_def
      componentDidMount_def reLint_call_def setEditorRef_def)

subsection \<open>Navigation\<close>

text \<open>
  C10. For every index the breadcrumb handler calls \<open>handleSetActiveActivity\<close> with the
  home activity, and the index makes no difference to what it does.
\<close>

theorem breadcrumb_goes_home:
  "activities (handleBreadcrumb home index w) = activities w @ [home] \<and>
   handleBreadcrumb home index w = handleBreadcrumb home index' w"
  by (simp add: handleBreadcrumb_def)

subsection \<open>Preview\<close>

text \<open>
  C5, as the code has it. If the contents parse to a truthy value, the preview structure
  is that value; if they parse to a falsy value (null, false, 0, NaN or the empty
  string) or the parser throws, it is the empty object; \<open>render\<close> returns in every case.
\<close>

theorem preview_parse_or_empty:
  "(parse (contents (activeApiSpec w)) = Inr doc \<and> truthy doc \<longrightarrow>
      map_sum id swaggerSpec (render parse w) = Inr doc) \<and>
   (parse (contents (activeApiSpec w)) = Inr doc \<and> \<not> truthy doc \<longrightarrow>
      map_sum id swaggerSpec (render parse w) = Inr (JObj [])) \<and>
   (parse (contents (activeApiSpec w)) = Inl err \<longrightarrow>
      map_sum id swaggerSpec (render parse w) = Inr (JObj [])) \<and>
   (\<exists>v. render parse w = Inr v)"
  by (auto simp add: render_def try_catch_def split: sum.splits)

theorem preview_parse_or_empty_witness:
  "sample_parse (contents (activeApiSpec (construct \<lparr>spec_id = ''spc_1'', contents = ''openapi: 3.0.0''\<rparr>)))
     = Inr (JObj [(''openapi'', JStr ''3.0.0'')]) \<and>
   truthy (JObj [(''openapi'', JStr ''3.0.0'')]) \<and>
   map_sum id swaggerSpec
     (render sample_parse (construct \<lparr>spec_id = ''spc_1'', contents = ''openapi: 3.0.0''\<rparr>))
     = Inr (JObj [(''openapi'', JStr ''3.0.0'')]) \<and>
   sample_parse (contents (activeApiSpec (construct \<lparr>spec_id = ''spc_1'', contents = []\<rparr>))) = Inr JNull \<and>
   \<not> truthy JNull \<and>
   map_sum id swaggerSpec (render sample_parse (construct \<lparr>spec_id = ''spc_1'', contents = []\<rparr>))
     = Inr (JObj []) \<and>
   sample_parse (contents (activeApiSpec (construct \<lparr>spec_id = ''spc_1'', contents = ''a: [''\<rparr>)))
     = Inl (YAMLError ''not a document'') \<and>
   map_sum id swaggerSpec (render sample_parse (construct \<lparr>spec_id = ''spc_1'', contents = ''a: [''\<rparr>))
     = Inr (JObj [])"
proof -
  have p1: "sample_parse (contents (activeApiSpec (construct \<lparr>spec_id = ''spc_1'', contents = ''openapi: 3.0.0''\<rparr>)))
     = Inr (JObj [(''openapi'', JStr ''3.0.0'')])"
    by (simp add: construct_def)
  have p2: "sample_parse (contents (activeApiSpec (construct \<lparr>spec_id = ''spc_1'', contents = []\<rparr>))) = Inr JNull"
    by (simp add: construct_def)
  have p3: "sample_parse (contents (activeApiSpec (construct \<lparr>spec_id = ''spc_1'', contents = ''a: [''\<rparr>)))
     = Inl (YAMLError ''not a document'')"
    by (simp add: construct_def)
  from preview_parse_or_empty
         [of sample_parse "construct \<lparr>spec_id = ''spc_1'', contents = ''openapi: 3.0.0''\<rparr>"
            "JObj [(''openapi'', JStr ''3.0.0'')]"]
       preview_parse_or_empty
         [of sample_parse "construct \<lparr>spec_id = ''spc_1'', contents = []\<rparr>" JNull]
       preview_parse_or_empty
         [of sample_parse "construct \<lparr>spec_id = ''spc_1'', contents = ''a: [''\<rparr>" _
            "YAMLError ''not a document''"]
       p1 p2 p3
  show ?thesis by simp
qed

text \<open>
  The empty document parses, to null, and the preview structure is the empty object.
\<close>

theorem preview_falsy_counterexample:
  "sample_parse (contents (activeApiSpec (mount 1 (construct \<lparr>spec_id = ''spc_1'', contents = ''''\<rparr>))))
     = Inr JNull \<and>
   map_sum id swaggerSpec
     (render sample_parse (mount 1 (construct \<lparr>spec_id = ''spc_1'', contents = ''''\<rparr>)))
     = Inr (JObj []) \<and>
   map_sum id swaggerSpec
     (render sample_parse (mount 1 (construct \<lparr>spec_id = ''spc_1'', contents = ''''\<rparr>)))
     \<noteq> sample_parse (contents (activeApiSpec (mount 1 (construct \<lparr>spec_id = ''spc_1'', contents = ''''\<rparr>))))"
  by (simp add: render_def try_catch_def mount_def construct_def componentDidMount_def
      reLint_call_def setEditorRef_def)

end
